theory Spec2Isabelle
  imports Complex_Main "HOL-Library.Word" "HOL-Library.Log_Nat"
begin

unbundle bit_operations_syntax

section \<open>Common data: bytes, errors, big-endian words\<close>

text \<open>
  A Python \<open>bytes\<close>/\<open>bytearray\<close> value is a list of 8-bit words. Python integers are
  unbounded and are modelled as \<open>int\<close>; every \<open>& 0xffffffff\<close> and \<open>% 256\<close> of the source
  is written out. Every exception the modelled code can raise is a constructor of \<open>error\<close>.
\<close>

type_synonym byte = "8 word"

datatype error =
    TypeError
  | CipherGenerationError
  | DecryptionError
  | StructError
  | IndexError
  | ValueError
  | ZeroDivisionError

text \<open>Sequencing of fallible computations: the first raised exception propagates.\<close>

definition bind_err :: "error + 'a \<Rightarrow> ('a \<Rightarrow> error + 'b) \<Rightarrow> error + 'b" where
  "bind_err m f = (case m of Inl e \<Rightarrow> Inl e | Inr x \<Rightarrow> f x)"

text \<open>\<open>BE_Uint32.unpack(b)[0]\<close>: \<open>struct.error\<close> unless \<open>b\<close> has exactly four bytes.\<close>

definition BE_Uint32_unpack :: "byte list \<Rightarrow> error + int" where
  "BE_Uint32_unpack b =
     (if length b \<noteq> 4 then Inl StructError
      else Inr (uint (b ! 0) * 2 ^ 24 + uint (b ! 1) * 2 ^ 16 + uint (b ! 2) * 2 ^ 8 + uint (b ! 3)))"

text \<open>\<open>_put_uint32\<close>: the four bytes \<open>(value >> 24) % 256\<close>, ..., \<open>value % 256\<close>.\<close>

definition put_uint32 :: "int \<Rightarrow> byte list" where
  "put_uint32 v =
     [word_of_int (drop_bit 24 v mod 256), word_of_int (drop_bit 16 v mod 256),
      word_of_int (drop_bit 8 v mod 256), word_of_int (v mod 256)]"

section \<open>QMC_TEACipher: the TEA block cipher\<close>

record QMC_TEACipher =
  tea_key :: "byte list"
  tea_delta :: int
  tea_rounds :: int

text \<open>\<open>QMC_TEACipher.__init__\<close>; a key of \<open>None\<close> is \<open>None\<close> here.\<close>

definition QMC_TEACipher_init :: "byte list option \<Rightarrow> int \<Rightarrow> int \<Rightarrow> error + QMC_TEACipher" where
  "QMC_TEACipher_init key rounds magic_number =
     (case key of
        None \<Rightarrow> Inl TypeError
      | Some k \<Rightarrow>
          if length k \<noteq> 16 then Inl CipherGenerationError
          else if rounds AND 1 \<noteq> 0 then Inl CipherGenerationError
          else Inr \<lparr>tea_key = k, tea_delta = magic_number, tea_rounds = rounds\<rparr>)"

text \<open>\<open>_get_values_from_src_data\<close>: the slices \<open>src[:4]\<close>, \<open>src[4:8]\<close>, \<open>key[:4]\<close>,
  \<open>key[4:8]\<close>, \<open>key[8:12]\<close>, \<open>key[12:]\<close>, each unpacked in this order.\<close>

definition get_values_from_src_data ::
  "byte list \<Rightarrow> byte list \<Rightarrow> error + (int \<times> int \<times> int \<times> int \<times> int \<times> int)" where
  "get_values_from_src_data key src_data =
     bind_err (BE_Uint32_unpack (take 4 src_data)) (\<lambda>v0.
     bind_err (BE_Uint32_unpack (take 4 (drop 4 src_data))) (\<lambda>v1.
     bind_err (BE_Uint32_unpack (take 4 key)) (\<lambda>k0.
     bind_err (BE_Uint32_unpack (take 4 (drop 4 key))) (\<lambda>k1.
     bind_err (BE_Uint32_unpack (take 4 (drop 8 key))) (\<lambda>k2.
     bind_err (BE_Uint32_unpack (drop 12 key)) (\<lambda>k3.
     Inr (v0, v1, k0, k1, k2, k3)))))))"

text \<open>The mixing term \<open>((v << 4) + ka) ^ (v + ciphersum) ^ ((v >> 5) + kb)\<close>.\<close>

definition tea_mix :: "int \<Rightarrow> int \<Rightarrow> int \<Rightarrow> int \<Rightarrow> int" where
  "tea_mix v ka kb ciphersum = (push_bit 4 v + ka) XOR (v + ciphersum) XOR (drop_bit 5 v + kb)"

text \<open>One pass of the body of the \<open>for\<close> loop of \<open>decrypt\<close> on the loop state
  \<open>(ciphersum, v0, v1)\<close>; the loop variable is not used by the body.\<close>

definition tea_dec_step :: "int \<Rightarrow> int \<times> int \<times> int \<times> int \<Rightarrow> int \<times> int \<times> int \<Rightarrow> int \<times> int \<times> int" where
  "tea_dec_step delta ks st =
     (case ks of (k0, k1, k2, k3) \<Rightarrow> case st of (ciphersum, v0, v1) \<Rightarrow>
        let v1' = (v1 - tea_mix v0 k2 k3 ciphersum) AND 0xffffffff;
            v0' = (v0 - tea_mix v1' k0 k1 ciphersum) AND 0xffffffff;
            ciphersum' = (ciphersum - delta) AND 0xffffffff
        in (ciphersum', v0', v1'))"

text \<open>One pass of the body of the \<open>for\<close> loop of \<open>encrypt\<close>.\<close>

definition tea_enc_step :: "int \<Rightarrow> int \<times> int \<times> int \<times> int \<Rightarrow> int \<times> int \<times> int \<Rightarrow> int \<times> int \<times> int" where
  "tea_enc_step delta ks st =
     (case ks of (k0, k1, k2, k3) \<Rightarrow> case st of (ciphersum, v0, v1) \<Rightarrow>
        let ciphersum' = (ciphersum + delta) AND 0xffffffff;
            v0' = (v0 + tea_mix v1 k0 k1 ciphersum') AND 0xffffffff;
            v1' = (v1 + tea_mix v0' k2 k3 ciphersum') AND 0xffffffff
        in (ciphersum', v0', v1'))"

text \<open>\<open>QMC_TEACipher.decrypt\<close>: \<open>range(rounds // 2)\<close> is empty for a negative
  \<open>rounds\<close>, hence \<open>nat\<close>.\<close>

definition QMC_TEACipher_decrypt :: "QMC_TEACipher \<Rightarrow> byte list \<Rightarrow> error + byte list" where
  "QMC_TEACipher_decrypt c src_data =
     bind_err (get_values_from_src_data (tea_key c) src_data) (\<lambda>(v0, v1, k0, k1, k2, k3).
       let delta = tea_delta c;
           rounds = tea_rounds c;
           ciphersum = (delta * (rounds div 2)) AND 0xffffffff
       in case (tea_dec_step delta (k0, k1, k2, k3) ^^ nat (rounds div 2)) (ciphersum, v0, v1) of
            (ciphersum', v0', v1') \<Rightarrow> Inr (put_uint32 v0' @ put_uint32 v1'))"

text \<open>\<open>QMC_TEACipher.encrypt\<close>.\<close>

definition QMC_TEACipher_encrypt :: "QMC_TEACipher \<Rightarrow> byte list \<Rightarrow> error + byte list" where
  "QMC_TEACipher_encrypt c src_data =
     bind_err (get_values_from_src_data (tea_key c) src_data) (\<lambda>(v0, v1, k0, k1, k2, k3).
       let delta = tea_delta c;
           rounds = tea_rounds c;
           ciphersum = 0 AND 0xffffffff
       in case (tea_enc_step delta (k0, k1, k2, k3) ^^ nat (rounds div 2)) (ciphersum, v0, v1) of
            (ciphersum', v0', v1') \<Rightarrow> Inr (put_uint32 v0' @ put_uint32 v1'))"

section \<open>TC_TEACipher: the chained-TEA envelope\<close>

record TC_TEACipher =
  tc_key :: "byte list"
  tc_delta :: int
  tc_rounds :: int
  tc_salt_len :: nat
  tc_zero_len :: nat

text \<open>\<open>TC_TEACipher.__init__\<close>; a key that is no byte string is \<open>None\<close> here.\<close>

definition TC_TEACipher_init :: "byte list option \<Rightarrow> int \<Rightarrow> int \<Rightarrow> error + TC_TEACipher" where
  "TC_TEACipher_init key rounds magic_number =
     (case key of
        None \<Rightarrow> Inl TypeError
      | Some k \<Rightarrow>
          if length k \<noteq> 16 then Inl CipherGenerationError
          else if rounds AND 1 \<noteq> 0 then Inl CipherGenerationError
          else Inr \<lparr>tc_key = k, tc_delta = magic_number, tc_rounds = rounds,
                    tc_salt_len = 2, tc_zero_len = 7\<rparr>)"

text \<open>\<open>original_tea_decrypt\<close>: the same loop as \<open>QMC_TEACipher.decrypt\<close>.\<close>

definition original_tea_decrypt :: "TC_TEACipher \<Rightarrow> byte list \<Rightarrow> error + byte list" where
  "original_tea_decrypt c src =
     bind_err (get_values_from_src_data (tc_key c) src) (\<lambda>(v0, v1, k0, k1, k2, k3).
       let delta = tc_delta c;
           rounds = tc_rounds c;
           ciphersum = (delta * (rounds div 2)) AND 0xffffffff
       in case (tea_dec_step delta (k0, k1, k2, k3) ^^ nat (rounds div 2)) (ciphersum, v0, v1) of
            (ciphersum', v0', v1') \<Rightarrow> Inr (put_uint32 v0' @ put_uint32 v1'))"

text \<open>\<open>Cryptodome.Util.strxor.strxor\<close>: \<open>ValueError\<close> on operands of different lengths.\<close>

definition strxor :: "byte list \<Rightarrow> byte list \<Rightarrow> error + byte list" where
  "strxor a b = (if length a \<noteq> length b then Inl ValueError else Inr (map2 (XOR) a b))"

text \<open>Indexing a byte string with a non-negative index: \<open>IndexError\<close> out of range.\<close>

definition byte_at :: "byte list \<Rightarrow> nat \<Rightarrow> error + byte" where
  "byte_at xs i = (if i < length xs then Inr (xs ! i) else Inl IndexError)"

text \<open>The variables that the closure \<open>crypt_block\<close> shares with \<open>decrypt\<close>.\<close>

record tc_state =
  iv_prev :: "byte list"
  iv_cur :: "byte list"
  dest_data :: "byte list"
  src_pos :: nat
  dest_idx :: nat

definition crypt_block :: "TC_TEACipher \<Rightarrow> byte list \<Rightarrow> tc_state \<Rightarrow> error + tc_state" where
  "crypt_block c src st =
     (let iv_prev' = iv_cur st;
          iv_cur' = take 8 (drop (src_pos st) src)
      in bind_err (strxor (take 8 (dest_data st)) (take 8 iv_cur')) (\<lambda>x.
         bind_err (original_tea_decrypt c x) (\<lambda>d.
         Inr \<lparr>iv_prev = iv_prev', iv_cur = iv_cur', dest_data = d,
              src_pos = src_pos st + 8, dest_idx = 0\<rparr>)))"

text \<open>The loop \<open>while i <= self._salt_len\<close>. When neither branch of its body applies
  the source loops without progress; the result \<open>None\<close> stands for that.\<close>

partial_function (option) salt_loop ::
  "TC_TEACipher \<Rightarrow> byte list \<Rightarrow> nat \<Rightarrow> tc_state \<Rightarrow> (error + tc_state) option" where
  "salt_loop c src i st =
     (if i \<le> tc_salt_len c then
        (if dest_idx st < 8 then salt_loop c src (i + 1) (st\<lparr>dest_idx := dest_idx st + 1\<rparr>)
         else if dest_idx st = 8 then
           (case crypt_block c src st of
              Inl e \<Rightarrow> Some (Inl e)
            | Inr st' \<Rightarrow> salt_loop c src i st')
         else salt_loop c src i st)
      else Some (Inr st))"

text \<open>The loop \<open>while out_buffer_pos < out_buffer_len\<close>.\<close>

partial_function (option) out_loop ::
  "TC_TEACipher \<Rightarrow> byte list \<Rightarrow> nat \<Rightarrow> byte list \<Rightarrow> nat \<Rightarrow> tc_state
     \<Rightarrow> (error + byte list \<times> tc_state) option" where
  "out_loop c src out_buffer_len out_buffer out_buffer_pos st =
     (if out_buffer_pos < out_buffer_len then
        (if dest_idx st < 8 then
           (case bind_err (byte_at (dest_data st) (dest_idx st)) (\<lambda>a.
                 bind_err (byte_at (iv_prev st) (dest_idx st)) (\<lambda>b. Inr (a XOR b))) of
              Inl e \<Rightarrow> Some (Inl e)
            | Inr v \<Rightarrow>
                out_loop c src out_buffer_len (out_buffer[out_buffer_pos := v])
                  (out_buffer_pos + 1) (st\<lparr>dest_idx := dest_idx st + 1\<rparr>))
         else if dest_idx st = 8 then
           (case crypt_block c src st of
              Inl e \<Rightarrow> Some (Inl e)
            | Inr st' \<Rightarrow> out_loop c src out_buffer_len out_buffer out_buffer_pos st')
         else out_loop c src out_buffer_len out_buffer out_buffer_pos st)
      else Some (Inr (out_buffer, st)))"

text \<open>The loop \<open>for i in range(1, self._zero_len)\<close> over the values of \<open>i\<close>; its body
  reads \<open>dest_data[dest_idx]\<close> and \<open>iv_prev[dest_idx]\<close> and changes no variable.\<close>

fun zero_check :: "nat list \<Rightarrow> tc_state \<Rightarrow> error + unit" where
  "zero_check [] st = Inr ()"
| "zero_check (i # is) st =
     bind_err (byte_at (dest_data st) (dest_idx st)) (\<lambda>a.
     bind_err (byte_at (iv_prev st) (dest_idx st)) (\<lambda>b.
       if a \<noteq> b then Inl DecryptionError else zero_check is st))"

text \<open>\<open>TC_TEACipher.decrypt\<close>. \<open>out_buffer_len\<close> is computed before the pad check and
  may be negative there; \<open>bytearray\<close> of a negative length raises \<open>ValueError\<close>.\<close>

definition TC_TEACipher_decrypt :: "TC_TEACipher \<Rightarrow> byte list \<Rightarrow> (error + byte list) option" where
  "TC_TEACipher_decrypt c src =
     (let src_len = length src in
      if src_len mod 8 \<noteq> 0 then Some (Inl DecryptionError)
      else if src_len < 16 then Some (Inl DecryptionError)
      else
       (case original_tea_decrypt c src of
          Inl e \<Rightarrow> Some (Inl e)
        | Inr dest_data0 \<Rightarrow>
           (case byte_at dest_data0 0 of
              Inl e \<Rightarrow> Some (Inl e)
            | Inr b0 \<Rightarrow>
               (let pad_len = unat (b0 AND 7);
                    out_buffer_len =
                      int src_len - int pad_len - int (tc_salt_len c) - int (tc_zero_len c) - 1
                in
                 (if pad_len + tc_salt_len c \<noteq> 8 then Some (Inl DecryptionError)
                  else if out_buffer_len < 0 then Some (Inl ValueError)
                  else
                   (let out_buffer = replicate (nat out_buffer_len) (0 :: byte);
                        st0 = \<lparr>iv_prev = [], iv_cur = [], dest_data = dest_data0,
                               src_pos = 8, dest_idx = pad_len + 1\<rparr>
                    in
                     (case salt_loop c src 1 st0 of
                        None \<Rightarrow> None
                      | Some (Inl e) \<Rightarrow> Some (Inl e)
                      | Some (Inr st1) \<Rightarrow>
                         (case out_loop c src (nat out_buffer_len) out_buffer 0 st1 of
                            None \<Rightarrow> None
                          | Some (Inl e) \<Rightarrow> Some (Inl e)
                          | Some (Inr (out_buffer', st2)) \<Rightarrow>
                             (case zero_check [1..<tc_zero_len c] st2 of
                                Inl e \<Rightarrow> Some (Inl e)
                              | Inr u \<Rightarrow> Some (Inr out_buffer'))))))))))"

section \<open>QMCv1_StaticMapCipher: the fixed-table mask\<close>

text \<open>The constant table \<open>__static_cipher_box\<close> of 256 bytes.\<close>

definition static_cipher_box :: "byte list" where
  "static_cipher_box =
     [0x77, 0x48, 0x32, 0x73, 0xde, 0xf2, 0xc0, 0xc8,
      0x95, 0xec, 0x30, 0xb2, 0x51, 0xc3, 0xe1, 0xa0,
      0x9e, 0xe6, 0x9d, 0xcf, 0xfa, 0x7f, 0x14, 0xd1,
      0xce, 0xb8, 0xdc, 0xc3, 0x4a, 0x67, 0x93, 0xd6,
      0x28, 0xc2, 0x91, 0x70, 0xca, 0x8d, 0xa2, 0xa4,
      0xf0, 0x08, 0x61, 0x90, 0x7e, 0x6f, 0xa2, 0xe0,
      0xeb, 0xae, 0x3e, 0xb6, 0x67, 0xc7, 0x92, 0xf4,
      0x91, 0xb5, 0xf6, 0x6c, 0x5e, 0x84, 0x40, 0xf7,
      0xf3, 0x1b, 0x02, 0x7f, 0xd5, 0xab, 0x41, 0x89,
      0x28, 0xf4, 0x25, 0xcc, 0x52, 0x11, 0xad, 0x43,
      0x68, 0xa6, 0x41, 0x8b, 0x84, 0xb5, 0xff, 0x2c,
      0x92, 0x4a, 0x26, 0xd8, 0x47, 0x6a, 0x7c, 0x95,
      0x61, 0xcc, 0xe6, 0xcb, 0xbb, 0x3f, 0x47, 0x58,
      0x89, 0x75, 0xc3, 0x75, 0xa1, 0xd9, 0xaf, 0xcc,
      0x08, 0x73, 0x17, 0xdc, 0xaa, 0x9a, 0xa2, 0x16,
      0x41, 0xd8, 0xa2, 0x06, 0xc6, 0x8b, 0xfc, 0x66,
      0x34, 0x9f, 0xcf, 0x18, 0x23, 0xa0, 0x0a, 0x74,
      0xe7, 0x2b, 0x27, 0x70, 0x92, 0xe9, 0xaf, 0x37,
      0xe6, 0x8c, 0xa7, 0xbc, 0x62, 0x65, 0x9c, 0xc2,
      0x08, 0xc9, 0x88, 0xb3, 0xf3, 0x43, 0xac, 0x74,
      0x2c, 0x0f, 0xd4, 0xaf, 0xa1, 0xc3, 0x01, 0x64,
      0x95, 0x4e, 0x48, 0x9f, 0xf4, 0x35, 0x78, 0x95,
      0x7a, 0x39, 0xd6, 0x6a, 0xa0, 0x6d, 0x40, 0xe8,
      0x4f, 0xa8, 0xef, 0x11, 0x1d, 0xf3, 0x1b, 0x3f,
      0x3f, 0x07, 0xdd, 0x6f, 0x5b, 0x19, 0x30, 0x19,
      0xfb, 0xef, 0x0e, 0x37, 0xf0, 0x0e, 0xcd, 0x16,
      0x49, 0xfe, 0x53, 0x47, 0x13, 0x1a, 0xbd, 0xa4,
      0xf1, 0x40, 0x19, 0x60, 0x0e, 0xed, 0x68, 0x09,
      0x06, 0x5f, 0x4d, 0xcf, 0x3d, 0x1a, 0xfe, 0x20,
      0x77, 0xe4, 0xd9, 0xda, 0xf9, 0xa4, 0x2b, 0x76,
      0x1c, 0x71, 0xdb, 0x00, 0xbc, 0xfd, 0x0c, 0x6c,
      0xa5, 0x47, 0xf7, 0xf6, 0x00, 0x79, 0x4a, 0x11]"

text \<open>\<open>QMCv1_StaticMapCipher._get_mask\<close>; \<open>offset\<close> is any Python integer. The index
  \<open>(offset ** 2 + 27) & 0xff\<close> lies in \<open>0..255\<close>, within the table.\<close>

definition static_get_mask :: "int \<Rightarrow> byte" where
  "static_get_mask offset =
     (let offset' = (if offset > 0x7fff then offset mod 0x7fff else offset);
          idx = (offset' ^ 2 + 27) AND 0xff
      in static_cipher_box ! nat idx)"

text \<open>\<open>QMCv1_StaticMapCipher.decrypt\<close>: byte \<open>i\<close> of the result is
  \<open>src_data[i] ^ _get_mask(offset + i)\<close>.\<close>

definition QMCv1_StaticMapCipher_decrypt :: "byte list \<Rightarrow> int \<Rightarrow> byte list" where
  "QMCv1_StaticMapCipher_decrypt src_data offset =
     map (\<lambda>i. src_data ! i XOR static_get_mask (offset + int i)) [0..<length src_data]"

section \<open>QMCv2_DynamicMapCipher: the key-derived mask\<close>

record QMCv2_DynamicMapCipher =
  dyn_key :: "byte list"

text \<open>\<open>QMCv2_DynamicMapCipher.__init__\<close>: only a key of \<open>None\<close> is rejected.\<close>

definition QMCv2_DynamicMapCipher_init :: "byte list option \<Rightarrow> error + QMCv2_DynamicMapCipher" where
  "QMCv2_DynamicMapCipher_init key =
     (case key of None \<Rightarrow> Inl TypeError | Some k \<Rightarrow> Inr \<lparr>dyn_key = k\<rparr>)"

text \<open>\<open>_rotate\<close> on Python integers.\<close>

definition rotate :: "int \<Rightarrow> int \<Rightarrow> int" where
  "rotate val bits =
     (let rotated = nat ((bits + 4) mod 8);
          left = push_bit rotated val mod 256;
          right = drop_bit rotated val mod 256
      in left OR right)"

text \<open>\<open>QMCv2_DynamicMapCipher._get_mask\<close>: \<open>% self.key_length\<close> raises
  \<open>ZeroDivisionError\<close> for an empty key; otherwise the index is within the key.\<close>

definition dyn_get_mask :: "QMCv2_DynamicMapCipher \<Rightarrow> int \<Rightarrow> error + int" where
  "dyn_get_mask c offset =
     (let offset' = (if offset > 0x7fff then offset mod 0x7fff else offset)
      in if length (dyn_key c) = 0 then Inl ZeroDivisionError
         else let idx = (offset' ^ 2 + 71214) mod int (length (dyn_key c))
              in Inr (rotate (uint (dyn_key c ! nat idx)) (idx AND 7)))"

text \<open>A generator expression consumed by \<open>bytes(...)\<close>: the elements are computed in
  order and the first exception propagates.\<close>

fun map_err :: "('a \<Rightarrow> error + 'b) \<Rightarrow> 'a list \<Rightarrow> error + 'b list" where
  "map_err f [] = Inr []"
| "map_err f (x # xs) = bind_err (f x) (\<lambda>y. bind_err (map_err f xs) (\<lambda>ys. Inr (y # ys)))"

text \<open>\<open>QMCv2_DynamicMapCipher.decrypt\<close>. Both operands of \<open>^\<close> lie in \<open>0..255\<close>, and so
  does the result that \<open>bytes\<close> stores.\<close>

definition QMCv2_DynamicMapCipher_decrypt ::
  "QMCv2_DynamicMapCipher \<Rightarrow> byte list \<Rightarrow> int \<Rightarrow> error + byte list" where
  "QMCv2_DynamicMapCipher_decrypt c src_data offset =
     map_err (\<lambda>i. bind_err (dyn_get_mask c (offset + int i))
                     (\<lambda>m. Inr (word_of_int (uint (src_data ! i) XOR m))))
       [0..<length src_data]"

section \<open>QMCv2_RC4Cipher: the segmented RC4 cipher\<close>

text \<open>
  The instance holds a reference to a \<open>bytearray\<close>, \<open>self._box\<close>, which \<open>decrypt\<close> copies
  and whose copy it mutates. To keep the object and its copies apart, mutable byte arrays
  live in a heap: a list of arrays, an address being an index, and \<open>copy\<close> appending a new
  array. Byte strings that are only read or rebuilt (\<open>key\<close>, the buffers) are values.
  Offsets are absolute positions, hence natural numbers.
\<close>

type_synonym heap = "byte list list"

record QMCv2_RC4Cipher =
  rc4_key :: "byte list"
  rc4_box :: nat
  rc4_hash :: int

subsection \<open>The float arithmetic of \<open>_get_segment_skip\<close>\<close>

text \<open>
  \<open>int(self.hash / ((v + 1) * seed) * 100)\<close> divides two Python integers into a float
  (the quotient rounded to the nearest binary64 value, ties to even), multiplies by
  \<open>100\<close> (rounded again) and truncates. The values are rationals here; \<open>round_to_double\<close>
  rounds a non-negative rational below \<open>2 ^ 1024\<close> to the nearest value \<open>m * 2 ^ (e - 52)\<close>
  with \<open>e \<ge> -1022\<close>.
\<close>

definition two_pow :: "int \<Rightarrow> rat" where
  "two_pow e = (if 0 \<le> e then 2 ^ nat e else 1 / 2 ^ nat (- e))"

definition floor_log2 :: "rat \<Rightarrow> int" where
  "floor_log2 x =
     (case quotient_of x of (a, b) \<Rightarrow>
        let n = bitlen a - bitlen b in if two_pow n \<le> x then n else n - 1)"

definition round_half_even :: "rat \<Rightarrow> int" where
  "round_half_even q =
     (let f = \<lfloor>q\<rfloor>; r = q - of_int f
      in if r < 1 / 2 then f else if 1 / 2 < r then f + 1 else if even f then f else f + 1)"

definition round_to_double :: "rat \<Rightarrow> rat" where
  "round_to_double x =
     (if x = 0 then 0
      else let e = max (floor_log2 x) (- 1022); u = two_pow (e - 52)
           in of_int (round_half_even (x / u)) * u)"

definition float_skip :: "int \<Rightarrow> int \<Rightarrow> int" where
  "float_skip h d = \<lfloor>round_to_double (round_to_double (of_int h / of_int d) * 100)\<rfloor>"

subsection \<open>Construction\<close>

text \<open>The loop of \<open>_get_hash_base\<close> over the key bytes, with its \<open>continue\<close> and \<open>break\<close>.\<close>

fun get_hash_base_loop :: "int \<Rightarrow> byte list \<Rightarrow> int" where
  "get_hash_base_loop hash_base [] = hash_base"
| "get_hash_base_loop hash_base (b # bs) =
     (let v = uint b in
      if v = 0 then get_hash_base_loop hash_base bs
      else let next_hash = (hash_base * v) AND 0xffffffff
           in if next_hash = 0 \<or> next_hash \<le> hash_base then hash_base
              else get_hash_base_loop next_hash bs)"

definition get_hash_base :: "byte list \<Rightarrow> int" where
  "get_hash_base key = get_hash_base_loop 1 key"

text \<open>One pass of the key-scheduling loop of \<open>__init__\<close> on the array at address \<open>a\<close>.\<close>

definition ksa_step :: "byte list \<Rightarrow> nat \<Rightarrow> heap \<times> nat \<Rightarrow> nat \<Rightarrow> heap \<times> nat" where
  "ksa_step key a st i =
     (case st of (h, j) \<Rightarrow>
        let box = h ! a;
            j' = (j + unat (box ! i) + unat (key ! (i mod length key))) mod length key
        in (h[a := box[i := box ! j', j' := box ! i]], j'))"

text \<open>\<open>QMCv2_RC4Cipher.__init__\<close>: the new array is allocated at the end of the heap.\<close>

definition QMCv2_RC4Cipher_init ::
  "heap \<Rightarrow> byte list option \<Rightarrow> heap \<times> (error + QMCv2_RC4Cipher)" where
  "QMCv2_RC4Cipher_init h key =
     (case key of
        None \<Rightarrow> (h, Inl TypeError)
      | Some k \<Rightarrow>
          if length k = 0 then (h, Inl CipherGenerationError)
          else
            (let a = length h;
                 h1 = h @ [map (\<lambda>i. word_of_int (int i mod 256)) [0..<length k]]
             in case foldl (ksa_step k a) (h1, 0) [0..<length k] of
                  (h2, j) \<Rightarrow>
                    (h2, Inr \<lparr>rc4_key = k, rc4_box = a, rc4_hash = get_hash_base k\<rparr>)))"

subsection \<open>Decryption\<close>

text \<open>\<open>_get_segment_skip\<close>: a zero divisor raises \<open>ZeroDivisionError\<close>.\<close>

definition get_segment_skip :: "QMCv2_RC4Cipher \<Rightarrow> nat \<Rightarrow> error + nat" where
  "get_segment_skip c v =
     (if length (rc4_key c) = 0 then Inl ZeroDivisionError
      else
        (let seed = uint (rc4_key c ! (v mod length (rc4_key c)));
             d = (int v + 1) * seed
         in if d = 0 then Inl ZeroDivisionError
            else Inr (nat (float_skip (rc4_hash c) d mod int (length (rc4_key c))))))"

text \<open>\<open>_enc_1st_segment\<close>: works on a fresh copy of its argument.\<close>

definition enc_1st_segment :: "QMCv2_RC4Cipher \<Rightarrow> byte list \<Rightarrow> nat \<Rightarrow> error + byte list" where
  "enc_1st_segment c buf offset =
     map_err (\<lambda>i. bind_err (get_segment_skip c (offset + i))
                     (\<lambda>s. Inr (buf ! i XOR rc4_key c ! s)))
       [0..<length buf]"

text \<open>One pass of the loop of \<open>_enc_another_segment\<close> for the loop variable \<open>i\<close>; \<open>b\<close> is
  the address of the local array \<open>box\<close>.\<close>

definition rc4_walk_step ::
  "nat \<Rightarrow> nat \<Rightarrow> heap \<times> nat \<times> nat \<times> byte list \<Rightarrow> int \<Rightarrow> heap \<times> nat \<times> nat \<times> byte list" where
  "rc4_walk_step key_length b st i =
     (case st of (h, j, k, buf) \<Rightarrow>
        let j' = (j + 1) mod key_length;
            k' = (unat (h ! b ! j') + k) mod key_length;
            box' = (h ! b)[j' := h ! b ! k', k' := h ! b ! j'];
            h' = h[b := box']
        in (h', j', k',
            if 0 \<le> i
            then buf[nat i := buf ! nat i
                       XOR box' ! ((unat (box' ! j') + unat (box' ! k')) mod key_length)]
            else buf))"

text \<open>\<open>_enc_another_segment\<close>: \<open>self.box.copy()\<close> allocates the local array, then the skip
  length is computed, then the loop runs over \<open>range(-skip_len, len(buf))\<close>.\<close>

definition enc_another_segment ::
  "heap \<Rightarrow> QMCv2_RC4Cipher \<Rightarrow> byte list \<Rightarrow> nat \<Rightarrow> heap \<times> (error + byte list)" where
  "enc_another_segment h c buf offset =
     (let b = length h;
          h1 = h @ [h ! rc4_box c]
      in case get_segment_skip c (offset div 5120) of
           Inl e \<Rightarrow> (h1, Inl e)
         | Inr s \<Rightarrow>
            (let skip_len = offset mod 5120 + s
             in case foldl (rc4_walk_step (length (rc4_key c)) b) (h1, 0, 0, buf)
                       [- int skip_len .. int (length buf) - 1] of
                  (h2, j, k, buf') \<Rightarrow> (h2, Inr buf')))"

text \<open>The loop \<open>while pending > self.__rc4_segment_size\<close> of \<open>decrypt\<close> on the variables
  \<open>src\<close>, \<open>offset\<close>, \<open>pending\<close>, \<open>done\<close>.\<close>

function decrypt_loop ::
  "heap \<Rightarrow> QMCv2_RC4Cipher \<Rightarrow> byte list \<Rightarrow> nat \<Rightarrow> nat \<Rightarrow> nat
     \<Rightarrow> heap \<times> (error + byte list \<times> nat \<times> nat \<times> nat)" where
  "decrypt_loop h c src offset pending done =
     (if pending > 5120 then
        (case enc_another_segment h c (take 5120 (drop done src)) offset of
           (h', Inl e) \<Rightarrow> (h', Inl e)
         | (h', Inr r) \<Rightarrow>
             decrypt_loop h' c (take done src @ r @ drop (done + 5120) src)
               (offset + 5120) (pending - 5120) (done + 5120))
      else (h, Inr (src, offset, pending, done)))"
  by pat_completeness auto
termination
  by (relation "measure (\<lambda>(h, c, src, offset, pending, done). pending)") auto

text \<open>The part of \<open>decrypt\<close> after the first-segment branch.\<close>

definition decrypt_rest ::
  "heap \<Rightarrow> QMCv2_RC4Cipher \<Rightarrow> byte list \<Rightarrow> nat \<Rightarrow> nat \<Rightarrow> nat \<Rightarrow> heap \<times> (error + byte list)" where
  "decrypt_rest h c src offset pending done =
     (case
        (if offset mod 5120 \<noteq> 0 then
           (let blksize = (if pending > 5120 - offset mod 5120
                           then 5120 - offset mod 5120 else pending)
            in case enc_another_segment h c (take blksize (drop done src)) offset of
                 (h', Inl e) \<Rightarrow> (h', Inl e)
               | (h', Inr r) \<Rightarrow>
                   (h', Inr (take done src @ r @ drop (done + blksize) src,
                             offset + blksize, pending - blksize, done + blksize,
                             pending - blksize = 0)))
         else (h, Inr (src, offset, pending, done, False))) of
        (h1, Inl e) \<Rightarrow> (h1, Inl e)
      | (h1, Inr (src1, offset1, pending1, done1, pending_is_0)) \<Rightarrow>
          if pending_is_0 then (h1, Inr src1)
          else
            (case decrypt_loop h1 c src1 offset1 pending1 done1 of
               (h2, Inl e) \<Rightarrow> (h2, Inl e)
             | (h2, Inr (src2, offset2, pending2, done2)) \<Rightarrow>
                 if pending2 > 0 then
                   (case enc_another_segment h2 c (drop done2 src2) offset2 of
                      (h3, Inl e) \<Rightarrow> (h3, Inl e)
                    | (h3, Inr r) \<Rightarrow> (h3, Inr (take done2 src2 @ r)))
                 else (h2, Inr src2)))"

text \<open>\<open>QMCv2_RC4Cipher.decrypt\<close>.\<close>

definition QMCv2_RC4Cipher_decrypt ::
  "heap \<Rightarrow> QMCv2_RC4Cipher \<Rightarrow> byte list \<Rightarrow> nat \<Rightarrow> heap \<times> (error + byte list)" where
  "QMCv2_RC4Cipher_decrypt h c src_data offset =
     (let pending = length src_data in
      if offset < 128 then
        (let blksize = (if pending > 128 - offset then 128 - offset else pending)
         in case enc_1st_segment c (take blksize src_data) offset of
              Inl e \<Rightarrow> (h, Inl e)
            | Inr r \<Rightarrow>
                if pending - blksize = 0 then (h, Inr (r @ drop blksize src_data))
                else decrypt_rest h c (r @ drop blksize src_data) (offset + blksize)
                       (pending - blksize) blksize)
      else decrypt_rest h c src_data offset pending 0)"

section \<open>Invariants used by the proofs\<close>

definition tea_inv :: "int \<times> int \<times> int \<Rightarrow> bool" where
  "tea_inv st = (case st of (s, v0, v1) \<Rightarrow>
     0 \<le> s \<and> s < 4294967296 \<and> 0 \<le> v0 \<and> v0 < 4294967296 \<and> 0 \<le> v1 \<and> v1 < 4294967296)"

text \<open>The quantities named by the specification of the key-derived mask: the folded position,
  the key index \<open>idx\<close> and the rotation amount \<open>r\<close>.\<close>

definition folded_pos :: "int \<Rightarrow> int" where
  "folded_pos pos = (if pos > 0x7fff then pos mod 0x7fff else pos)"

definition mask_index :: "QMCv2_DynamicMapCipher \<Rightarrow> int \<Rightarrow> nat" where
  "mask_index c pos = nat ((folded_pos pos ^ 2 + 71214) mod int (length (dyn_key c)))"

definition rotate_amount :: "QMCv2_DynamicMapCipher \<Rightarrow> int \<Rightarrow> nat" where
  "rotate_amount c pos = nat (((int (mask_index c pos) AND 7) + 4) mod 8)"

text \<open>The mask of \<open>QMCv2_DynamicMapCipher\<close> as a byte.\<close>

definition dyn_mask_byte :: "QMCv2_DynamicMapCipher \<Rightarrow> int \<Rightarrow> byte" where
  "dyn_mask_byte c pos =
     push_bit (rotate_amount c pos) (dyn_key c ! mask_index c pos)
       OR drop_bit (rotate_amount c pos) (dyn_key c ! mask_index c pos)"

text \<open>The RC4 box-walk on the local array alone: the state \<open>(box, j, k)\<close>, one step, the
  byte emitted after a step, and the byte emitted by the \<open>m\<close>-th step from the array \<open>bx\<close>.\<close>

definition walk_step :: "nat \<Rightarrow> byte list \<times> nat \<times> nat \<Rightarrow> byte list \<times> nat \<times> nat" where
  "walk_step key_length st =
     (case st of (bx, j, k) \<Rightarrow>
        let j' = (j + 1) mod key_length;
            k' = (unat (bx ! j') + k) mod key_length
        in (bx[j' := bx ! k', k' := bx ! j'], j', k'))"

definition walk_emit :: "nat \<Rightarrow> byte list \<times> nat \<times> nat \<Rightarrow> byte" where
  "walk_emit key_length st =
     (case st of (bx, j, k) \<Rightarrow> bx ! ((unat (bx ! j) + unat (bx ! k)) mod key_length))"

definition walk_byte :: "nat \<Rightarrow> byte list \<Rightarrow> nat \<Rightarrow> byte" where
  "walk_byte key_length bx m = walk_emit key_length ((walk_step key_length ^^ m) (bx, 0, 0))"

text \<open>The keystream byte of the absolute position \<open>p\<close>, for the scheduled array \<open>bx\<close>: a
  key byte below 128, a byte of the box-walk of the segment of \<open>p\<close> from 128 on.\<close>

definition keystream :: "QMCv2_RC4Cipher \<Rightarrow> byte list \<Rightarrow> nat \<Rightarrow> error + byte" where
  "keystream c bx p =
     (if p < 128 then bind_err (get_segment_skip c p) (\<lambda>s. Inr (rc4_key c ! s))
      else bind_err (get_segment_skip c (p div 5120))
             (\<lambda>s. Inr (walk_byte (length (rc4_key c)) bx (p mod 5120 + s + 1))))"

definition xor_keystream :: "QMCv2_RC4Cipher \<Rightarrow> byte list \<Rightarrow> byte list \<Rightarrow> nat \<Rightarrow> error + byte list" where
  "xor_keystream c bx buf offset =
     map_err (\<lambda>i. bind_err (keystream c bx (offset + i)) (\<lambda>m. Inr (buf ! i XOR m)))
       [0..<length buf]"

text \<open>Decrypting the consecutive sub-ranges of a buffer one call after the other, each at
  its absolute offset, and concatenating the results.\<close>

fun decrypt_parts ::
  "heap \<Rightarrow> QMCv2_RC4Cipher \<Rightarrow> byte list list \<Rightarrow> nat \<Rightarrow> heap \<times> (error + byte list)" where
  "decrypt_parts h c [] offset = (h, Inr [])"
| "decrypt_parts h c (p # ps) offset =
     (case QMCv2_RC4Cipher_decrypt h c p offset of
        (h', Inl e) \<Rightarrow> (h', Inl e)
      | (h', Inr r) \<Rightarrow>
          (case decrypt_parts h' c ps (offset + length p) of
             (h'', Inl e) \<Rightarrow> (h'', Inl e)
           | (h'', Inr rs) \<Rightarrow> (h'', Inr (r @ rs))))"

text \<open>The heap after a sequence of \<open>decrypt\<close> calls on one instance.\<close>

fun decrypt_calls :: "heap \<Rightarrow> QMCv2_RC4Cipher \<Rightarrow> (byte list \<times> nat) list \<Rightarrow> heap" where
  "decrypt_calls h c [] = h"
| "decrypt_calls h c ((buf, offset) # calls) =
     decrypt_calls (fst (QMCv2_RC4Cipher_decrypt h c buf offset)) c calls"

section \<open>The TEA round trip\<close>



lemma u32_mod: "(x::int) AND 0xffffffff = x mod 4294967296"
proof -
  have "(0xffffffff::int) = mask 32" by (simp add: mask_eq_exp_minus_1)
  then have "x AND 0xffffffff = take_bit 32 x" by (simp only: take_bit_eq_mask)
  then show ?thesis by (simp add: take_bit_eq_mod)
qed

lemma u32_cancel: "((x - y) AND 0xffffffff) + y AND 0xffffffff = (x::int) AND 0xffffffff"
  by (simp add: u32_mod mod_simps)

lemma u32_id: "0 \<le> x \<Longrightarrow> x < 4294967296 \<Longrightarrow> (x::int) AND 0xffffffff = x"
  by (simp add: u32_mod)

lemma tea_enc_dec_step:
  assumes "tea_inv st"
  shows "tea_enc_step d ks (tea_dec_step d ks st) = st"
proof -
  obtain k0 k1 k2 k3 where ks: "ks = (k0, k1, k2, k3)" by (cases ks) auto
  obtain s v0 v1 where st: "st = (s, v0, v1)" by (cases st) auto
  have r: "s AND 0xffffffff = s" "v0 AND 0xffffffff = v0" "v1 AND 0xffffffff = v1"
    using assms by (simp_all add: st tea_inv_def u32_id)
  show ?thesis
    by (simp add: ks st tea_enc_step_def tea_dec_step_def Let_def u32_cancel r del: and_numerals)
qed

lemma tea_dec_step_inv: "tea_inv (tea_dec_step d ks st)"
  by (cases ks; cases st) (simp add: tea_inv_def tea_dec_step_def Let_def u32_mod)

lemma tea_dec_pow_inv: "tea_inv st \<Longrightarrow> tea_inv ((tea_dec_step d ks ^^ n) st)"
  by (cases n) (simp_all add: tea_dec_step_inv)

lemma tea_enc_dec_pow:
  "tea_inv st \<Longrightarrow> (tea_enc_step d ks ^^ n) ((tea_dec_step d ks ^^ n) st) = st"
proof (induction n)
  case 0
  then show ?case by simp
next
  case (Suc n)
  have "tea_inv ((tea_dec_step d ks ^^ n) st)" using Suc.prems by (rule tea_dec_pow_inv)
  then have "tea_enc_step d ks (tea_dec_step d ks ((tea_dec_step d ks ^^ n) st)) = (tea_dec_step d ks ^^ n) st"
    by (rule tea_enc_dec_step)
  then show ?case using Suc by (simp add: funpow_swap1)
qed

lemma tea_dec_step_fst: "fst (tea_dec_step d ks st) = (fst st - d) mod 4294967296"
  by (cases ks; cases st) (simp add: tea_dec_step_def Let_def u32_mod)

lemma tea_dec_pow_sum:
  "fst ((tea_dec_step d ks ^^ n) st) mod 4294967296 = (fst st - int n * d) mod 4294967296"
proof (induction n)
  case 0 show ?case by simp
next
  case (Suc n)
  have "(fst ((tea_dec_step d ks ^^ n) st) mod 4294967296 - d) mod 4294967296
      = ((fst st - int n * d) mod 4294967296 - d) mod 4294967296"
    using Suc by simp
  then show ?case by (simp add: tea_dec_step_fst mod_simps algebra_simps)
qed



lemma byte_bound: "0 \<le> uint (a::byte)" "uint (a::byte) < 256"
  using uint_lt2p[of a] by simp_all

lemma split256:
  assumes "0 \<le> d" "d < 256"
  shows "(w * 256 + d) div 256 = (w::int)" and "(w * 256 + d) mod 256 = d"
  using assms by simp_all

lemma put_unpack4: "put_uint32 (uint a * 16777216 + uint b * 65536 + uint c * 256 + uint (d::byte)) = [a, b, c, d]"
proof -
  define v where "v = uint a * 16777216 + uint b * 65536 + uint c * 256 + uint d"
  define w2 where "w2 = uint a * 65536 + uint b * 256 + uint c"
  define w1 where "w1 = uint a * 256 + uint b"
  have v: "v = w2 * 256 + uint d" by (simp add: v_def w2_def)
  have w2: "w2 = w1 * 256 + uint c" by (simp add: w2_def w1_def)
  have 1: "v mod 256 = uint d" and d1: "v div 256 = w2"
    unfolding v by (rule split256[OF byte_bound])+
  have 2: "w2 mod 256 = uint c" and d2: "w2 div 256 = w1"
    unfolding w2 by (rule split256[OF byte_bound])+
  have 3: "w1 mod 256 = uint b" and d3: "w1 div 256 = uint a"
    unfolding w1_def by (rule split256[OF byte_bound])+
  have e2: "v div 65536 = w1"
    using zdiv_zmult2_eq[of 256 v 256] by (simp add: d1 d2)
  have e3: "v div 16777216 = uint a"
    using zdiv_zmult2_eq[of 256 v 65536] by (simp add: e2 d3)
  have 4: "uint a mod 256 = uint a" using byte_bound[of a] by simp
  have "put_uint32 v = [a, b, c, d]"
    unfolding put_uint32_def drop_bit_eq_div by (simp add: 1 2 3 4 d1 e2 e3)
  then show ?thesis unfolding v_def .
qed

lemma uint_byte_of_int: "0 \<le> t \<Longrightarrow> t < 256 \<Longrightarrow> uint (word_of_int t :: byte) = t"
  by (simp add: uint_word_of_int)

lemma unpack_put: 
  assumes "0 \<le> v" "v < 4294967296" shows "BE_Uint32_unpack (put_uint32 v) = Inr v"
proof -
  define q1 where "q1 = v div 256"
  define q2 where "q2 = q1 div 256"
  define q3 where "q3 = q2 div 256"
  have e1: "v div 65536 = q2" using zdiv_zmult2_eq[of 256 v 256] by (simp add: q1_def q2_def)
  have e2: "v div 16777216 = q3"
    using zdiv_zmult2_eq[of 256 v 65536] by (simp add: e1 q3_def)
  have "0 \<le> q3" "q3 < 256" using assms by (simp_all flip: e2)
  then have top: "q3 mod 256 = q3" by simp
  have m: "\<And>x::int. uint (word_of_int (x mod 256) :: byte) = x mod 256"
    by (simp add: uint_word_of_int)
  have "v = q1 * 256 + v mod 256" by (simp add: q1_def)
  also have "q1 = q2 * 256 + q1 mod 256" by (simp add: q2_def)
  also have "q2 = q3 * 256 + q2 mod 256" by (simp add: q3_def)
  finally have "v = ((q3 mod 256 * 256 + q2 mod 256) * 256 + q1 mod 256) * 256 + v mod 256"
    by (simp only: top)
  then have "q3 mod 256 * 16777216 + q2 mod 256 * 65536 + q1 mod 256 * 256 + v mod 256 = v"
    by (simp add: algebra_simps)
  then show ?thesis
    by (simp add: BE_Uint32_unpack_def put_uint32_def m drop_bit_eq_div e1 e2 q1_def[symmetric])
qed


lemma list8: "length (x::'a list) = 8 \<Longrightarrow> \<exists>a b c d e f g h. x = [a, b, c, d, e, f, g, h]"
  by (auto simp: numeral_eq_Suc length_Suc_conv)

lemma length_put_uint32: "length (put_uint32 v) = 4"
  by (simp add: put_uint32_def)

lemma get_values_put:
  assumes "length key = 16" "0 \<le> v0" "v0 < 4294967296" "0 \<le> v1" "v1 < 4294967296"
    and "get_values_from_src_data key x = Inr (w0, w1, k0, k1, k2, k3)"
  shows "get_values_from_src_data key (put_uint32 v0 @ put_uint32 v1) = Inr (v0, v1, k0, k1, k2, k3)"
  using assms(6) unpack_put[OF assms(2,3)] unpack_put[OF assms(4,5)]
  by (auto simp: get_values_from_src_data_def bind_err_def length_put_uint32 split: sum.splits)

lemma get_values_block:
  assumes "length key = 16"
  shows "\<exists>k0 k1 k2 k3. get_values_from_src_data key [a, b, c, d, e, f, g, h] =
     Inr (uint a * 16777216 + uint b * 65536 + uint c * 256 + uint d,
          uint e * 16777216 + uint f * 65536 + uint g * 256 + uint h, k0, k1, k2, k3)"
  using assms by (simp add: get_values_from_src_data_def bind_err_def BE_Uint32_unpack_def)

lemma unpack_range: "BE_Uint32_unpack b = Inr v \<Longrightarrow> 0 \<le> v \<and> v < 4294967296"
  using byte_bound[of "b ! 0"] byte_bound[of "b ! 1"] byte_bound[of "b ! 2"] byte_bound[of "b ! 3"]
  by (auto simp: BE_Uint32_unpack_def split: if_splits)

text \<open>
  Claim C6. For every 8-byte block \<open>x\<close>, every 16-byte key and every round count accepted by
  the constructor (the even ones; 2 and 64 among them), \<open>decrypt\<close> returns a block \<open>d\<close> and
  \<open>encrypt\<close> of \<open>d\<close> returns \<open>x\<close>.
\<close>

theorem QMC_TEA_roundtrip:
  assumes "QMC_TEACipher_init (Some key) rounds magic_number = Inr c" and "length x = 8"
  shows "\<exists>d. QMC_TEACipher_decrypt c x = Inr d \<and> QMC_TEACipher_encrypt c d = Inr x"
proof -
  have c: "tea_key c = key" "tea_delta c = magic_number" "tea_rounds c = rounds" and lk: "length key = 16"
    using assms(1) by (auto simp: QMC_TEACipher_init_def split: if_splits)
  obtain a b c' d e f g h where x: "x = [a, b, c', d, e, f, g, h]" using list8[OF assms(2)] by blast
  define v0 where "v0 = uint a * 16777216 + uint b * 65536 + uint c' * 256 + uint d"
  define v1 where "v1 = uint e * 16777216 + uint f * 65536 + uint g * 256 + uint h"
  obtain k0 k1 k2 k3 where gv: "get_values_from_src_data key x = Inr (v0, v1, k0, k1, k2, k3)"
    using get_values_block[OF lk, of a b c' d e f g h] unfolding x v0_def v1_def by blast
  have rv: "0 \<le> v0" "v0 < 4294967296" "0 \<le> v1" "v1 < 4294967296"
    using byte_bound[of a] byte_bound[of b] byte_bound[of c'] byte_bound[of d]
      byte_bound[of e] byte_bound[of f] byte_bound[of g] byte_bound[of h]
    by (simp_all add: v0_def v1_def)
  define n where "n = nat (rounds div 2)"
  define s0 where "s0 = (magic_number * (rounds div 2)) AND 0xffffffff"
  define st where "st = (tea_dec_step magic_number (k0, k1, k2, k3) ^^ n) (s0, v0, v1)"
  obtain s' v0' v1' where st': "st = (s', v0', v1')" by (cases st) auto
  have inv0: "tea_inv (s0, v0, v1)" using rv by (simp add: tea_inv_def s0_def u32_mod)
  have inv: "tea_inv st" unfolding st_def using inv0 by (rule tea_dec_pow_inv)
  have dec: "QMC_TEACipher_decrypt c x = Inr (put_uint32 v0' @ put_uint32 v1')"
    using st' by (simp add: QMC_TEACipher_decrypt_def c gv bind_err_def Let_def
        flip: n_def s0_def st_def del: and_numerals)
  have gv': "get_values_from_src_data key (put_uint32 v0' @ put_uint32 v1') = Inr (v0', v1', k0, k1, k2, k3)"
    using inv get_values_put[OF lk _ _ _ _ gv, of v0' v1'] by (simp add: st' tea_inv_def)
  have bk: "snd ((tea_enc_step magic_number (k0, k1, k2, k3) ^^ n) (0, v0', v1')) = (v0, v1)"
  proof (cases "n = 0")
    case True
    then show ?thesis using st' by (simp add: st_def)
  next
    case False
    then have "int n = rounds div 2" by (simp add: n_def)
    then have "(s0 - int n * magic_number) mod 4294967296 = 0"
      by (simp add: s0_def u32_mod mod_simps mult.commute)
    moreover have "fst st = s'" by (simp add: st')
    ultimately have "s' mod 4294967296 = 0"
      using tea_dec_pow_sum[where d=magic_number and ks="(k0, k1, k2, k3)" and n=n and st="(s0, v0, v1)"]
      by (simp flip: st_def)
    then have "s' = 0" using inv by (simp add: st' tea_inv_def)
    then show ?thesis
      using tea_enc_dec_pow[OF inv0, where d=magic_number and ks="(k0, k1, k2, k3)" and n=n]
      by (simp flip: st_def add: st')
  qed
  have enc: "QMC_TEACipher_encrypt c (put_uint32 v0' @ put_uint32 v1') = Inr (put_uint32 v0 @ put_uint32 v1)"
    using bk by (auto simp add: QMC_TEACipher_encrypt_def c gv' bind_err_def Let_def split: prod.splits simp flip: n_def)
  have "put_uint32 v0 @ put_uint32 v1 = x"
    by (simp add: v0_def v1_def put_unpack4 x)
  with dec enc show ?thesis by simp
qed

theorem QMC_TEA_roundtrip_witness:
  "QMC_TEACipher_init (Some [0,0,0,0,0,0,0,0,0,0,0,0,0,0,0,0]) 64 0x9e3779b9
     = Inr \<lparr>tea_key = [0,0,0,0,0,0,0,0,0,0,0,0,0,0,0,0], tea_delta = 0x9e3779b9, tea_rounds = 64\<rparr>
   \<and> length ([1, 2, 3, 4, 5, 6, 7, 8] :: byte list) = 8
   \<and> (\<exists>d. QMC_TEACipher_decrypt \<lparr>tea_key = [0,0,0,0,0,0,0,0,0,0,0,0,0,0,0,0], tea_delta = 0x9e3779b9, tea_rounds = 64\<rparr>
              [1, 2, 3, 4, 5, 6, 7, 8] = Inr d
          \<and> QMC_TEACipher_encrypt \<lparr>tea_key = [0,0,0,0,0,0,0,0,0,0,0,0,0,0,0,0], tea_delta = 0x9e3779b9, tea_rounds = 64\<rparr> d
              = Inr [1, 2, 3, 4, 5, 6, 7, 8])"
proof -
  have i: "QMC_TEACipher_init (Some [0,0,0,0,0,0,0,0,0,0,0,0,0,0,0,0]) 64 0x9e3779b9
     = Inr \<lparr>tea_key = [0,0,0,0,0,0,0,0,0,0,0,0,0,0,0,0], tea_delta = 0x9e3779b9, tea_rounds = 64\<rparr>"
    by (simp add: QMC_TEACipher_init_def)
  have l: "length ([1, 2, 3, 4, 5, 6, 7, 8] :: byte list) = 8" by simp
  show ?thesis using QMC_TEA_roundtrip[OF i l] i l by blast
qed

section \<open>The envelope cipher never returns\<close>




lemma get_values_total:
  assumes "length key = 16" "8 \<le> length src"
  shows "\<exists>r. get_values_from_src_data key src = Inr r"
  using assms by (simp add: get_values_from_src_data_def bind_err_def BE_Uint32_unpack_def)

lemma original_tea_decrypt_total:
  assumes "length (tc_key c) = 16" "8 \<le> length src"
  shows "\<exists>d. original_tea_decrypt c src = Inr d \<and> length d = 8"
proof -
  obtain r where r: "get_values_from_src_data (tc_key c) src = Inr r"
    using get_values_total[OF assms] by blast
  show ?thesis
    by (cases r) (auto simp: original_tea_decrypt_def r bind_err_def Let_def length_put_uint32 split: prod.splits)
qed

lemma TC_init_fields:
  assumes "TC_TEACipher_init key rounds magic_number = Inr c"
  shows "length (tc_key c) = 16" "tc_salt_len c = 2" "tc_zero_len c = 7"
  using assms by (auto simp: TC_TEACipher_init_def split: option.splits if_splits)

lemma salt_loop_start:
  assumes k: "length (tc_key c) = 16" and s: "tc_salt_len c = 2" and l: "16 \<le> length src"
    and d: "length d = 8"
  shows "\<exists>d' cur sp. salt_loop c src 1 \<lparr>iv_prev = [], iv_cur = [], dest_data = d, src_pos = 8, dest_idx = 7\<rparr>
      = Some (Inr \<lparr>iv_prev = [], iv_cur = cur, dest_data = d', src_pos = sp, dest_idx = 1\<rparr>) \<and> length d' = 8"
proof -
  let ?cur = "take 8 (drop 8 src)"
  have lc: "length ?cur = 8" using l by simp
  obtain x where x: "strxor (take 8 d) (take 8 ?cur) = Inr x" "length x = 8"
    using d lc by (simp add: strxor_def)
  obtain d' where d': "original_tea_decrypt c x = Inr d'" "length d' = 8"
    using original_tea_decrypt_total[OF k, of x] x by auto
  have cb: "crypt_block c src \<lparr>iv_prev = [], iv_cur = [], dest_data = d, src_pos = 8, dest_idx = 8\<rparr>
    = Inr \<lparr>iv_prev = [], iv_cur = ?cur, dest_data = d', src_pos = 16, dest_idx = 0\<rparr>"
    using x d' by (simp add: crypt_block_def Let_def bind_err_def)
  have "salt_loop c src 1 \<lparr>iv_prev = [], iv_cur = [], dest_data = d, src_pos = 8, dest_idx = 7\<rparr>
     = Some (Inr \<lparr>iv_prev = [], iv_cur = ?cur, dest_data = d', src_pos = 16, dest_idx = 1\<rparr>)"
    apply (subst salt_loop.simps, simp add: s)
    apply (subst salt_loop.simps, simp add: s cb)
    apply (subst salt_loop.simps, simp add: s)
    apply (subst salt_loop.simps, simp add: s)
    done
  then show ?thesis using d' by blast
qed

lemma TC_decrypt_index_error:
  assumes init: "TC_TEACipher_init key rounds magic_number = Inr c"
    and len8: "length src mod 8 = 0"
    and len16: "16 \<le> length src"
    and pad: "\<exists>d. original_tea_decrypt c src = Inr d \<and> unat (d ! 0 AND 7) + tc_salt_len c = 8"
  shows "TC_TEACipher_decrypt c src = Some (Inl IndexError)"
proof -
  note f = TC_init_fields[OF init]
  obtain d where d: "original_tea_decrypt c src = Inr d" "unat (d ! 0 AND 7) + tc_salt_len c = 8"
    using pad by blast
  have ld: "length d = 8" using original_tea_decrypt_total[OF f(1), of src] len16 d by auto
  have p6: "unat (d ! 0 AND 7) = 6" using d(2) f(2) by simp
  obtain d' cur sp where sl: "salt_loop c src 1 \<lparr>iv_prev = [], iv_cur = [], dest_data = d, src_pos = 8, dest_idx = 7\<rparr>
      = Some (Inr \<lparr>iv_prev = [], iv_cur = cur, dest_data = d', src_pos = sp, dest_idx = 1\<rparr>)" and ld': "length d' = 8"
    using salt_loop_start[OF f(1) f(2) len16 ld] by blast
  let ?st = "\<lparr>iv_prev = [], iv_cur = cur, dest_data = d', src_pos = sp, dest_idx = 1\<rparr>"
  let ?n = "nat (int (length src) - 16)"
  have ol: "out_loop c src ?n (replicate ?n 0) 0 ?st
     = (if ?n = 0 then Some (Inr (replicate ?n 0, ?st)) else Some (Inl IndexError))"
    by (subst out_loop.simps) (simp add: byte_at_def bind_err_def ld')
  have zc: "zero_check [1..<7] ?st = Inl IndexError"
    by (simp add: upt_conv_Cons byte_at_def bind_err_def ld')
  show ?thesis
    using len8 len16 sl ol zc
    by (simp add: TC_TEACipher_decrypt_def Let_def d byte_at_def ld p6 f)
qed

lemma tea_dec_step_eval:
  "tea_dec_step delta (k0, k1, k2, k3) (ciphersum, v0, v1) =
     (let v1' = (v1 - tea_mix v0 k2 k3 ciphersum) AND 0xffffffff;
          v0' = (v0 - tea_mix v1' k0 k1 ciphersum) AND 0xffffffff
      in ((ciphersum - delta) AND 0xffffffff, v0', v1'))"
  by (simp add: tea_dec_step_def Let_def)

lemma funpow_num: "(f ^^ numeral k) x = (f ^^ pred_numeral k) (f x)"
  by (simp add: numeral_eq_Suc funpow_swap1)

text \<open>
  Claim C2. For every input that passes the length checks and the pad-length check of
  \<open>TC_TEACipher.decrypt\<close>, the call ends in an \<open>IndexError\<close>: \<open>iv_prev\<close> is still the empty
  byte string when its byte at \<open>dest_idx\<close> is first read.
\<close>

theorem TC_TEACipher_decrypt_never_returns:
  assumes "TC_TEACipher_init key rounds magic_number = Inr c"
    and "length src mod 8 = 0"
    and "16 \<le> length src"
    and "\<exists>d. original_tea_decrypt c src = Inr d \<and> unat (d ! 0 AND 7) + tc_salt_len c = 8"
  shows "TC_TEACipher_decrypt c src = Some (Inl IndexError)"
  using assms by (rule TC_decrypt_index_error)


lemma tea_values_eval:
  "get_values_from_src_data [0,0,0,0,0,0,0,0,0,0,0,0,0,0,0,0] (71 # 221 # 177 # 141 # 84 # 67 # 247 # 209 # rest)
     = Inr (1205711245, 1413740497, 0, 0, 0, 0)"
  by (simp add: get_values_from_src_data_def bind_err_def BE_Uint32_unpack_def)

lemma tea_rounds_eval:
  "(tea_dec_step 0x9e3779b9 (0, 0, 0, 0) ^^ 32) (0xC6EF3720, 1205711245, 1413740497) = (0, 100663296, 0)"
  by (simp add: tea_dec_step_eval tea_mix_def Let_def funpow_num)

lemma tea_put_eval: "put_uint32 100663296 @ put_uint32 0 = [6, 0, 0, 0, 0, 0, 0, 0]"
  by (simp add: put_uint32_def)

lemma tea_block_eval:
  "original_tea_decrypt \<lparr>tc_key = [0,0,0,0,0,0,0,0,0,0,0,0,0,0,0,0], tc_delta = 0x9e3779b9, tc_rounds = 64, tc_salt_len = 2, tc_zero_len = 7\<rparr>
     (71 # 221 # 177 # 141 # 84 # 67 # 247 # 209 # rest) = Inr [6, 0, 0, 0, 0, 0, 0, 0]"
proof -
  have n: "nat ((64::int) div 2) = 32" by simp
  have s: "((0x9e3779b9::int) * (64 div 2)) AND 0xffffffff = 0xC6EF3720" by simp
  show ?thesis
    unfolding original_tea_decrypt_def
    by (simp only: TC_TEACipher.simps tea_values_eval bind_err_def sum.case prod.case Let_def n s
        tea_rounds_eval tea_put_eval)
qed


lemma TC_init_eval: "TC_TEACipher_init (Some [0,0,0,0,0,0,0,0,0,0,0,0,0,0,0,0]) 64 0x9e3779b9 = Inr \<lparr>tc_key = [0,0,0,0,0,0,0,0,0,0,0,0,0,0,0,0], tc_delta = 0x9e3779b9, tc_rounds = 64, tc_salt_len = 2, tc_zero_len = 7\<rparr>"
  by (simp add: TC_TEACipher_init_def)


theorem TC_TEACipher_decrypt_never_returns_witness:
  "TC_TEACipher_init (Some [0,0,0,0,0,0,0,0,0,0,0,0,0,0,0,0]) 64 0x9e3779b9 = Inr \<lparr>tc_key = [0,0,0,0,0,0,0,0,0,0,0,0,0,0,0,0], tc_delta = 0x9e3779b9, tc_rounds = 64, tc_salt_len = 2, tc_zero_len = 7\<rparr>
   \<and> length ([71, 221, 177, 141, 84, 67, 247, 209, 1, 2, 3, 4, 5, 6, 7, 8] :: byte list) mod 8 = 0
   \<and> 16 \<le> length ([71, 221, 177, 141, 84, 67, 247, 209, 1, 2, 3, 4, 5, 6, 7, 8] :: byte list)
   \<and> (\<exists>d. original_tea_decrypt \<lparr>tc_key = [0,0,0,0,0,0,0,0,0,0,0,0,0,0,0,0], tc_delta = 0x9e3779b9, tc_rounds = 64, tc_salt_len = 2, tc_zero_len = 7\<rparr> [71, 221, 177, 141, 84, 67, 247, 209, 1, 2, 3, 4, 5, 6, 7, 8] = Inr d
          \<and> unat (d ! 0 AND 7) + tc_salt_len \<lparr>tc_key = [0,0,0,0,0,0,0,0,0,0,0,0,0,0,0,0], tc_delta = 0x9e3779b9, tc_rounds = 64, tc_salt_len = 2, tc_zero_len = 7\<rparr> = 8)
   \<and> TC_TEACipher_decrypt \<lparr>tc_key = [0,0,0,0,0,0,0,0,0,0,0,0,0,0,0,0], tc_delta = 0x9e3779b9, tc_rounds = 64, tc_salt_len = 2, tc_zero_len = 7\<rparr> [71, 221, 177, 141, 84, 67, 247, 209, 1, 2, 3, 4, 5, 6, 7, 8]
       = Some (Inl IndexError)"
proof -
  have p: "\<exists>d. original_tea_decrypt \<lparr>tc_key = [0,0,0,0,0,0,0,0,0,0,0,0,0,0,0,0], tc_delta = 0x9e3779b9, tc_rounds = 64, tc_salt_len = 2, tc_zero_len = 7\<rparr> [71, 221, 177, 141, 84, 67, 247, 209, 1, 2, 3, 4, 5, 6, 7, 8] = Inr d
          \<and> unat (d ! 0 AND 7) + tc_salt_len \<lparr>tc_key = [0,0,0,0,0,0,0,0,0,0,0,0,0,0,0,0], tc_delta = 0x9e3779b9, tc_rounds = 64, tc_salt_len = 2, tc_zero_len = 7\<rparr> = 8"
    using tea_block_eval[of "[1, 2, 3, 4, 5, 6, 7, 8]"] by simp
  show ?thesis
    using TC_TEACipher_decrypt_never_returns[OF TC_init_eval _ _ p] p TC_init_eval by simp
qed


text \<open>
  Claim C1, at a 24-byte input with pad length 6 (zero key, 64 rounds): the claim promises a
  plaintext of 8 bytes, the call raises \<open>IndexError\<close>.
\<close>

theorem TC_TEACipher_decrypt_24_bytes_fails:
  "TC_TEACipher_init (Some [0,0,0,0,0,0,0,0,0,0,0,0,0,0,0,0]) 64 0x9e3779b9 = Inr \<lparr>tc_key = [0,0,0,0,0,0,0,0,0,0,0,0,0,0,0,0], tc_delta = 0x9e3779b9, tc_rounds = 64, tc_salt_len = 2, tc_zero_len = 7\<rparr>
   \<and> TC_TEACipher_decrypt \<lparr>tc_key = [0,0,0,0,0,0,0,0,0,0,0,0,0,0,0,0], tc_delta = 0x9e3779b9, tc_rounds = 64, tc_salt_len = 2, tc_zero_len = 7\<rparr>
        [71, 221, 177, 141, 84, 67, 247, 209, 0, 0, 0, 0, 0, 0, 0, 0, 0, 0, 0, 0, 0, 0, 0, 0]
       = Some (Inl IndexError)"
proof -
  have p: "\<exists>d. original_tea_decrypt \<lparr>tc_key = [0,0,0,0,0,0,0,0,0,0,0,0,0,0,0,0], tc_delta = 0x9e3779b9, tc_rounds = 64, tc_salt_len = 2, tc_zero_len = 7\<rparr> [71, 221, 177, 141, 84, 67, 247, 209, 0, 0, 0, 0, 0, 0, 0, 0, 0, 0, 0, 0, 0, 0, 0, 0] = Inr d
          \<and> unat (d ! 0 AND 7) + tc_salt_len \<lparr>tc_key = [0,0,0,0,0,0,0,0,0,0,0,0,0,0,0,0], tc_delta = 0x9e3779b9, tc_rounds = 64, tc_salt_len = 2, tc_zero_len = 7\<rparr> = 8"
    using tea_block_eval[of "[0, 0, 0, 0, 0, 0, 0, 0, 0, 0, 0, 0, 0, 0, 0, 0]"] by simp
  show ?thesis
    using TC_decrypt_index_error[OF TC_init_eval _ _ p] TC_init_eval by simp
qed


text \<open>
  Claim C4, at a 16-byte input with pad length 6: the integrity check is reached and raises
  \<open>IndexError\<close>, not a decryption error. The loop of the check runs six times and reads the
  one position \<open>dest_idx\<close> each time: bytes that differ at the following positions pass it.
\<close>

theorem TC_TEACipher_zero_check_diverges:
  "TC_TEACipher_decrypt \<lparr>tc_key = [0,0,0,0,0,0,0,0,0,0,0,0,0,0,0,0], tc_delta = 0x9e3779b9, tc_rounds = 64, tc_salt_len = 2, tc_zero_len = 7\<rparr>
        [71, 221, 177, 141, 84, 67, 247, 209, 0, 0, 0, 0, 0, 0, 0, 0] = Some (Inl IndexError)
   \<and> zero_check [1..<tc_zero_len \<lparr>tc_key = [0,0,0,0,0,0,0,0,0,0,0,0,0,0,0,0], tc_delta = 0x9e3779b9, tc_rounds = 64, tc_salt_len = 2, tc_zero_len = 7\<rparr>]
        \<lparr>iv_prev = [0, 0, 0, 0, 0, 0, 0, 0], iv_cur = [], dest_data = [0, 0, 1, 1, 1, 1, 1, 1],
         src_pos = 16, dest_idx = 1\<rparr> = Inr ()
   \<and> length [1..<tc_zero_len \<lparr>tc_key = [0,0,0,0,0,0,0,0,0,0,0,0,0,0,0,0], tc_delta = 0x9e3779b9, tc_rounds = 64, tc_salt_len = 2, tc_zero_len = 7\<rparr>] = 6"
proof -
  have p: "\<exists>d. original_tea_decrypt \<lparr>tc_key = [0,0,0,0,0,0,0,0,0,0,0,0,0,0,0,0], tc_delta = 0x9e3779b9, tc_rounds = 64, tc_salt_len = 2, tc_zero_len = 7\<rparr> [71, 221, 177, 141, 84, 67, 247, 209, 0, 0, 0, 0, 0, 0, 0, 0] = Inr d
          \<and> unat (d ! 0 AND 7) + tc_salt_len \<lparr>tc_key = [0,0,0,0,0,0,0,0,0,0,0,0,0,0,0,0], tc_delta = 0x9e3779b9, tc_rounds = 64, tc_salt_len = 2, tc_zero_len = 7\<rparr> = 8"
    using tea_block_eval[of "[0, 0, 0, 0, 0, 0, 0, 0]"] by simp
  have z: "zero_check [1..<7]
        \<lparr>iv_prev = [0, 0, 0, 0, 0, 0, 0, 0], iv_cur = [], dest_data = [0, 0, 1, 1, 1, 1, 1, 1],
         src_pos = 16, dest_idx = 1\<rparr> = Inr ()"
    by (simp add: upt_conv_Cons byte_at_def bind_err_def)
  show ?thesis
    using TC_decrypt_index_error[OF TC_init_eval _ _ p] z by simp
qed



section \<open>The mask ciphers\<close>





lemma rotate_word: "rotate (uint (v::byte)) bits =
    uint (push_bit (nat ((bits + 4) mod 8)) v OR drop_bit (nat ((bits + 4) mod 8)) v)"
proof -
  let ?r = "nat ((bits + 4) mod 8)"
  have e: "drop_bit ?r (uint v) = uint (drop_bit ?r v)"
    by (simp add: unsigned_drop_bit_eq take_bit_eq_mod byte_bound)
  have d: "drop_bit ?r (uint v) mod 256 = drop_bit ?r (uint v)"
    unfolding e using byte_bound[of "drop_bit ?r v"] by simp
  show ?thesis
    by (simp add: rotate_def Let_def d uint_or unsigned_push_bit_eq take_bit_eq_mod flip: e)
qed

lemma add4_mod8: "n < 8 \<Longrightarrow> (n + 4) mod 8 = (if n < 4 then n + 4 else n - (4::nat))"
  by (simp add: mod_if)

lemma rotl4: "word_rotl 4 (v::byte) = push_bit 4 v OR drop_bit 4 v"
  by (rule bit_word_eqI) (auto simp: bit_simps add4_mod8 add.commute dest: bit_imp_le_length split: if_splits)

lemma rotl0: "word_rotl 0 (v::byte) = push_bit 0 v OR drop_bit 0 v"
  by (rule bit_word_eqI) (simp add: bit_simps)



lemma dyn_get_mask_byte:
  assumes "dyn_key c \<noteq> []"
  shows "dyn_get_mask c pos = Inr (uint (dyn_mask_byte c pos))"
proof -
  have "0 \<le> (folded_pos pos ^ 2 + 71214) mod int (length (dyn_key c))"
    using assms by simp
  then have i: "int (mask_index c pos) = (folded_pos pos ^ 2 + 71214) mod int (length (dyn_key c))"
    by (simp add: mask_index_def)
  show ?thesis
    using assms
    by (simp add: dyn_get_mask_def Let_def rotate_word dyn_mask_byte_def rotate_amount_def i
        flip: folded_pos_def) (simp add: mask_index_def)
qed


lemma add6_mod8: "n < 8 \<Longrightarrow> (n + 6) mod 8 = (if n < 2 then n + 6 else n - (2::nat))"
  by (simp add: mod_if)

lemma rotl2: "word_rotl 2 (v::byte) = push_bit 2 v OR drop_bit 6 v"
  by (rule bit_word_eqI) (auto simp: bit_simps add6_mod8 add.commute dest: bit_imp_le_length split: if_splits)


text \<open>
  Claim C9, amended. For a non-empty key the mask byte is \<open>((v << r) mod 256) | (v >> r)\<close>;
  it is the 8-bit left rotation of \<open>v\<close> by \<open>r\<close> when \<open>r\<close> is 0 or 4.
\<close>

theorem dyn_mask_value:
  assumes "dyn_key c \<noteq> []"
  shows "dyn_get_mask c pos =
           Inr (uint (push_bit (rotate_amount c pos) (dyn_key c ! mask_index c pos)
                      OR drop_bit (rotate_amount c pos) (dyn_key c ! mask_index c pos)))
         \<and> (rotate_amount c pos = 0 \<or> rotate_amount c pos = 4 \<longrightarrow>
              dyn_get_mask c pos =
                Inr (uint (word_rotl (rotate_amount c pos) (dyn_key c ! mask_index c pos))))"
  using dyn_get_mask_byte[OF assms, of pos] rotl0 rotl4
  by (auto simp: dyn_mask_byte_def)

theorem dyn_mask_value_witness:
  "dyn_key \<lparr>dyn_key = [0xA5]\<rparr> \<noteq> []
   \<and> dyn_get_mask \<lparr>dyn_key = [0xA5]\<rparr> 3 = Inr 0x5A
   \<and> rotate_amount \<lparr>dyn_key = [0xA5]\<rparr> 3 = 4
   \<and> uint (word_rotl (rotate_amount \<lparr>dyn_key = [0xA5]\<rparr> 3)
        (dyn_key \<lparr>dyn_key = [0xA5]\<rparr> ! mask_index \<lparr>dyn_key = [0xA5]\<rparr> 3)) = 0x5A"
proof -
  have h: "dyn_key \<lparr>dyn_key = [0xA5]\<rparr> \<noteq> []" by simp
  have r: "rotate_amount \<lparr>dyn_key = [0xA5]\<rparr> 3 = 4"
    by (simp add: rotate_amount_def mask_index_def)
  have m: "dyn_get_mask \<lparr>dyn_key = [0xA5]\<rparr> 3 = Inr 0x5A"
    by (simp add: dyn_get_mask_def rotate_def Let_def)
  from dyn_mask_value[OF h, of 3] r
  have e: "dyn_get_mask \<lparr>dyn_key = [0xA5]\<rparr> 3 =
      Inr (uint (word_rotl (rotate_amount \<lparr>dyn_key = [0xA5]\<rparr> 3)
        (dyn_key \<lparr>dyn_key = [0xA5]\<rparr> ! mask_index \<lparr>dyn_key = [0xA5]\<rparr> 3)))"
    by blast
  have t: "uint (word_rotl (rotate_amount \<lparr>dyn_key = [0xA5]\<rparr> 3)
        (dyn_key \<lparr>dyn_key = [0xA5]\<rparr> ! mask_index \<lparr>dyn_key = [0xA5]\<rparr> 3)) = 0x5A"
    using e m by (simp only: sum.inject)
  from h r m t show ?thesis by blast
qed


text \<open>
  Claim C9 as stated fails: with key byte \<open>0x80\<close> at index 6 of an 8-byte key, position 0 has
  \<open>idx = 6\<close> and \<open>r = 2\<close>; the mask is \<open>0x20\<close>, the left rotation of \<open>0x80\<close> by 2 is \<open>0x02\<close>.
\<close>

theorem dyn_mask_not_rotation:
  "mask_index \<lparr>dyn_key = [0, 0, 0, 0, 0, 0, 0x80, 0]\<rparr> 0 = 6
   \<and> rotate_amount \<lparr>dyn_key = [0, 0, 0, 0, 0, 0, 0x80, 0]\<rparr> 0 = 2
   \<and> dyn_get_mask \<lparr>dyn_key = [0, 0, 0, 0, 0, 0, 0x80, 0]\<rparr> 0 = Inr 0x20
   \<and> uint (word_rotl 2 (0x80 :: byte)) = 0x02
   \<and> dyn_get_mask \<lparr>dyn_key = [0, 0, 0, 0, 0, 0, 0x80, 0]\<rparr> 0
       \<noteq> Inr (uint (word_rotl (rotate_amount \<lparr>dyn_key = [0, 0, 0, 0, 0, 0, 0x80, 0]\<rparr> 0)
                  (dyn_key \<lparr>dyn_key = [0, 0, 0, 0, 0, 0, 0x80, 0]\<rparr> ! mask_index \<lparr>dyn_key = [0, 0, 0, 0, 0, 0, 0x80, 0]\<rparr> 0)))"
proof -
  have i: "mask_index \<lparr>dyn_key = [0, 0, 0, 0, 0, 0, 0x80, 0]\<rparr> 0 = 6"
    by (simp add: mask_index_def folded_pos_def)
  have r: "rotate_amount \<lparr>dyn_key = [0, 0, 0, 0, 0, 0, 0x80, 0]\<rparr> 0 = 2"
    by (simp add: rotate_amount_def i)
  have m: "dyn_get_mask \<lparr>dyn_key = [0, 0, 0, 0, 0, 0, 0x80, 0]\<rparr> 0 = Inr 0x20"
    by (simp add: dyn_get_mask_def rotate_def Let_def)
  have "word_rotl 2 (0x80 :: byte) = push_bit 2 0x80 OR drop_bit 6 0x80"
    by (rule rotl2)
  then have w: "uint (word_rotl 2 (0x80 :: byte)) = 0x02" by simp
  have k: "dyn_key \<lparr>dyn_key = [0, 0, 0, 0, 0, 0, 0x80, 0]\<rparr> ! 6 = (0x80 :: byte)" by simp
  have ne: "dyn_get_mask \<lparr>dyn_key = [0, 0, 0, 0, 0, 0, 0x80, 0]\<rparr> 0
       \<noteq> Inr (uint (word_rotl (rotate_amount \<lparr>dyn_key = [0, 0, 0, 0, 0, 0, 0x80, 0]\<rparr> 0)
                  (dyn_key \<lparr>dyn_key = [0, 0, 0, 0, 0, 0, 0x80, 0]\<rparr> ! mask_index \<lparr>dyn_key = [0, 0, 0, 0, 0, 0, 0x80, 0]\<rparr> 0)))"
    unfolding i r k w m by simp
  from i r m w ne show ?thesis by blast
qed


lemma map_err_Inr:
  "(\<And>x. x \<in> set xs \<Longrightarrow> f x = Inr (g x)) \<Longrightarrow> map_err f xs = Inr (map g xs)"
  by (induction xs) (simp_all add: bind_err_def)

lemma dyn_decrypt_eq:
  assumes "dyn_key c \<noteq> []"
  shows "QMCv2_DynamicMapCipher_decrypt c buf offset
     = Inr (map (\<lambda>i. buf ! i XOR dyn_mask_byte c (offset + int i)) [0..<length buf])"
  unfolding QMCv2_DynamicMapCipher_decrypt_def
  by (rule map_err_Inr)
     (simp add: dyn_get_mask_byte[OF assms] bind_err_def flip: uint_xor)


lemma xor_twice: "(a XOR m) XOR m = (a::byte)"
  by (simp add: xor.assoc)

lemma dyn_involution:
  assumes "dyn_key c \<noteq> []"
  shows "bind_err (QMCv2_DynamicMapCipher_decrypt c buf offset)
           (\<lambda>r. QMCv2_DynamicMapCipher_decrypt c r offset) = Inr buf"
proof -
  let ?r = "map (\<lambda>i. buf ! i XOR dyn_mask_byte c (offset + int i)) [0..<length buf]"
  have "map (\<lambda>i. ?r ! i XOR dyn_mask_byte c (offset + int i)) [0..<length ?r] = buf"
    by (rule nth_equalityI) (simp_all add: xor_twice)
  then show ?thesis
    unfolding dyn_decrypt_eq[OF assms] bind_err_def by (simp only: sum.case)
qed

lemma static_involution:
  "QMCv1_StaticMapCipher_decrypt (QMCv1_StaticMapCipher_decrypt buf offset) offset = buf"
  unfolding QMCv1_StaticMapCipher_decrypt_def
  by (rule nth_equalityI) (simp_all add: xor_twice)

section \<open>The segmented RC4 cipher: a zero key byte\<close>


lemma rc4_init_zero_key:
  "QMCv2_RC4Cipher_init [] (Some [0]) = ([[0]], Inr \<lparr>rc4_key = [0], rc4_box = 0, rc4_hash = 1\<rparr>)"
  by (simp add: QMCv2_RC4Cipher_init_def ksa_step_def get_hash_base_def Let_def)

text \<open>
  Claim C3, at the key \<open>[0]\<close> (accepted by the constructor), buffer \<open>[7]\<close>, offset 0: the seed
  \<open>key[0]\<close> is 0, the divisor \<open>(0 + 1) * seed\<close> is zero and \<open>decrypt\<close> raises
  \<open>ZeroDivisionError\<close>.
\<close>

theorem rc4_zero_key_byte_fails:
  "QMCv2_RC4Cipher_init [] (Some [0]) = ([[0]], Inr \<lparr>rc4_key = [0], rc4_box = 0, rc4_hash = 1\<rparr>)
   \<and> (int 0 + 1) * uint ([0 :: byte] ! (0 mod length [0 :: byte])) = 0
   \<and> get_segment_skip \<lparr>rc4_key = [0], rc4_box = 0, rc4_hash = 1\<rparr> 0 = Inl ZeroDivisionError
   \<and> snd (QMCv2_RC4Cipher_decrypt [[0]] \<lparr>rc4_key = [0], rc4_box = 0, rc4_hash = 1\<rparr> [7] 0)
       = Inl ZeroDivisionError"
  by (simp add: rc4_init_zero_key QMCv2_RC4Cipher_decrypt_def enc_1st_segment_def
      get_segment_skip_def bind_err_def Let_def)


end
